theory Spec2Isabelle
  imports Complex_Main "HOL-Library.Sublist" "HOL-Library.Char_ord" "HOL-Library.List_Lexorder"
    "HOL-Library.Multiset"
begin

section \<open>Python string operations used by the scripts\<close>

text \<open>
  A Python \<open>str\<close> is modelled as a \<^typ>\<open>string\<close>, one \<^typ>\<open>char\<close> per code point. The
  model is exact for ASCII text: \<open>lower\<close> maps \<open>A..Z\<close> to \<open>a..z\<close>, \<open>isspace\<close> holds for
  the ASCII white space characters and \<open>isdigit\<close> for \<open>0..9\<close>. Characters from 128
  upwards are kept as opaque symbols without case (the non-ASCII keywords of the source are
  written as their UTF-8 bytes), so \<open>len\<close> counts bytes for such text.
\<close>

definition lower_char :: "char \<Rightarrow> char" where
  "lower_char c = (let n = (of_char c :: nat) in if 65 \<le> n \<and> n \<le> 90 then char_of (n + 32) else c)"

definition lower :: "string \<Rightarrow> string" where
  "lower s = map lower_char s"

definition isspace :: "char \<Rightarrow> bool" where
  "isspace c = (let n = (of_char c :: nat) in (9 \<le> n \<and> n \<le> 13) \<or> (28 \<le> n \<and> n \<le> 32))"

definition isdigit_char :: "char \<Rightarrow> bool" where
  "isdigit_char c = (let n = (of_char c :: nat) in 48 \<le> n \<and> n \<le> 57)"

text \<open>\<open>s.strip()\<close>: white space removed at both ends.\<close>

definition strip :: "string \<Rightarrow> string" where
  "strip s = rev (dropWhile isspace (rev (dropWhile isspace s)))"

text \<open>\<open>s.split()\<close>: the maximal runs of characters that are not white space, in order. The
  first argument is the current run, reversed.\<close>

fun split_acc :: "string \<Rightarrow> string \<Rightarrow> string list" where
  "split_acc cur [] = (if cur = [] then [] else [rev cur])"
| "split_acc cur (c # cs) =
     (if isspace c then (if cur = [] then split_acc [] cs else rev cur # split_acc [] cs)
      else split_acc (c # cur) cs)"

definition split :: "string \<Rightarrow> string list" where
  "split s = split_acc [] s"

text \<open>\<open>sub in s\<close>: \<open>sub\<close> occurs in \<open>s\<close> as a contiguous substring.\<close>

fun str_in :: "string \<Rightarrow> string \<Rightarrow> bool" where
  "str_in sub [] = (sub = [])"
| "str_in sub (c # cs) = (prefix sub (c # cs) \<or> str_in sub cs)"

section \<open>youtube_batch_downloader.py\<close>

subsection \<open>Filter configuration (module constants)\<close>

record filter_config =
  TITLE_MUST_CONTAIN :: "string list"
  TITLE_EXCLUDE_KEYWORDS :: "string list"
  POLITICAL_KEYWORDS :: "string list"
  MIN_DURATION_SECONDS :: int


subsection \<open>Keyword filter\<close>

text \<open>\<open>_contains_keyword\<close>: the loop over the keywords returns at the first one that occurs
  in the lower-cased text.\<close>

fun contains_keyword :: "string \<Rightarrow> string list \<Rightarrow> bool" where
  "contains_keyword text [] = False"
| "contains_keyword text (kw # keywords) =
     (if str_in (lower kw) (lower text) then True else contains_keyword text keywords)"

definition is_excluded :: "filter_config \<Rightarrow> string \<Rightarrow> bool" where
  "is_excluded cfg title =
     (if contains_keyword title (TITLE_EXCLUDE_KEYWORDS cfg) then True
      else if contains_keyword title (POLITICAL_KEYWORDS cfg) then True
      else False)"

definition is_valid_title :: "filter_config \<Rightarrow> string \<Rightarrow> bool" where
  "is_valid_title cfg title =
     (if is_excluded cfg title then False
      else if contains_keyword title (TITLE_MUST_CONTAIN cfg) then True
      else False)"

subsection \<open>Duplicate detector\<close>


fun is_duplicate_loop :: "string \<Rightarrow> string list \<Rightarrow> bool" where
  "is_duplicate_loop normalized_title [] = False"
| "is_duplicate_loop normalized_title (downloaded # rest) =
     (if length normalized_title > 20 \<and> length downloaded > 20 then
        (let common = set (split normalized_title) \<inter> set (split downloaded) in
         if card common \<ge> 3 then True else is_duplicate_loop normalized_title rest)
      else is_duplicate_loop normalized_title rest)"

definition is_duplicate :: "string list \<Rightarrow> string \<Rightarrow> bool" where
  "is_duplicate exclude_titles title = is_duplicate_loop (strip (lower title)) exclude_titles"

subsection \<open>Filtering the candidates\<close>

text \<open>A candidate as \<open>search_videos\<close> builds it. \<open>v_duration\<close> is \<open>None\<close> when the metadata
  has a null duration.\<close>

record video =
  v_id :: string
  v_title :: string
  v_url :: string
  v_duration :: "int option"
  v_uploader :: string
  v_upload_time :: string
  v_views :: int

text \<open>The local variables of \<open>_filter_videos\<close>: the list of survivors and the five counters
  it prints.\<close>

record filter_state =
  filtered :: "video list"
  excluded_by_title :: nat
  excluded_by_duration :: nat
  excluded_by_political :: nat
  excluded_by_duplicate :: nat
  excluded_by_filter :: nat

definition filter_init :: filter_state where
  "filter_init = \<lparr> filtered = [], excluded_by_title = 0, excluded_by_duration = 0,
     excluded_by_political = 0, excluded_by_duplicate = 0, excluded_by_filter = 0 \<rparr>"

fun filter_loop :: "filter_config \<Rightarrow> string list \<Rightarrow> video list \<Rightarrow> filter_state \<Rightarrow> filter_state" where
  "filter_loop cfg exclude_titles [] st = st"
| "filter_loop cfg exclude_titles (video # videos) st =
     (let title = v_title video; uploader = v_uploader video in
      if is_duplicate exclude_titles title then
        filter_loop cfg exclude_titles videos
          (st\<lparr>excluded_by_duplicate := excluded_by_duplicate st + 1\<rparr>)
      else if contains_keyword title (POLITICAL_KEYWORDS cfg)
              \<or> contains_keyword uploader (POLITICAL_KEYWORDS cfg) then
        filter_loop cfg exclude_titles videos
          (st\<lparr>excluded_by_political := excluded_by_political st + 1\<rparr>)
      else if \<not> is_valid_title cfg title then
        filter_loop cfg exclude_titles videos
          (st\<lparr>excluded_by_title := excluded_by_title st + 1\<rparr>)
      else
        (let duration = (case v_duration video of None \<Rightarrow> 0 | Some d \<Rightarrow> d) in
         if duration < MIN_DURATION_SECONDS cfg then
           filter_loop cfg exclude_titles videos
             (st\<lparr>excluded_by_duration := excluded_by_duration st + 1\<rparr>)
         else filter_loop cfg exclude_titles videos (st\<lparr>filtered := filtered st @ [video]\<rparr>)))"

text \<open>\<open>_filter_videos\<close> returns the survivors; \<open>filter_statistics\<close> is the state whose
  counters it prints before returning.\<close>

definition filter_statistics :: "filter_config \<Rightarrow> string list \<Rightarrow> video list \<Rightarrow> filter_state" where
  "filter_statistics cfg exclude_titles videos = filter_loop cfg exclude_titles videos filter_init"

definition filter_videos :: "filter_config \<Rightarrow> string list \<Rightarrow> video list \<Rightarrow> video list" where
  "filter_videos cfg exclude_titles videos = filtered (filter_statistics cfg exclude_titles videos)"

subsection \<open>Searching\<close>

definition search_terms :: "string list" where
  "search_terms =
    [''Hong Kong documentary'', ''Hong Kong history documentary'',
     [CHR 0xE9, CHR 0xA6, CHR 0x99, CHR 0xE6, CHR 0xB8, CHR 0xAF, CHR 0xE7, CHR 0xBA, CHR 0xAA, CHR 0xE5, CHR 0xBD, CHR 0x95, CHR 0xE7, CHR 0x89, CHR 0x87],
     ''Hong Kong culture documentary'', ''Hong Kong food documentary'',
     ''Hong Kong travel documentary'', ''Hong Kong city documentary'',
     ''Hong Kong lifestyle documentary'', ''Hong Kong urban exploration'',
     ''Hong Kong heritage documentary'', ''Hong Kong travel vlog'',
     ''Hong Kong tourism guide'', ''Hong Kong travel guide'', ''Hong Kong vlog'',
     ''Hong Kong trip'', ''visit Hong Kong'', ''Hong Kong vacation'',
     ''Hong Kong 4K travel'', ''Hong Kong scenic'', ''Kennedy Town Hong Kong travel'',
     ''Shek Tong Tsui Hong Kong'', ''Sai Ying Pun Hong Kong vlog'',
     ''Sheung Wan Hong Kong travel'', ''Central Hong Kong travel'',
     ''Admiralty Hong Kong documentary'', ''Mid-Levels Hong Kong'',
     ''Peak Tram Hong Kong travel'', ''Wan Chai Hong Kong travel'',
     ''Causeway Bay Hong Kong vlog'', ''Happy Valley Hong Kong'',
     ''Tai Hang Hong Kong'', ''Jardine'' @ [CHR 0x27] @ ''s Lookout Hong Kong'',
     ''Tin Hau Hong Kong'', ''North Point Hong Kong travel'', ''Quarry Bay Hong Kong'',
     ''Sai Wan Ho Hong Kong'', ''Shau Kei Wan Hong Kong'',
     ''Chai Wan Hong Kong travel'', ''Aberdeen Hong Kong travel'',
     ''Ap Lei Chau Hong Kong'', ''Repulse Bay Hong Kong travel'',
     ''Stanley Hong Kong documentary'', ''Shek O Hong Kong'',
     ''Wong Chuk Hang Hong Kong'', ''Tsim Sha Tsui Hong Kong travel'',
     ''Yau Ma Tei Hong Kong'', ''Mong Kok Hong Kong vlog'', ''West Kowloon Hong Kong'',
     ''Mei Foo Hong Kong'', ''Lai Chi Kok Hong Kong'', ''Cheung Sha Wan Hong Kong'',
     ''Sham Shui Po Hong Kong'', ''Shek Kip Mei Hong Kong'',
     ''Hung Hom Hong Kong travel'', ''To Kwa Wan Hong Kong'', ''Kai Tak Hong Kong'',
     ''Ho Man Tin Hong Kong'', ''Kowloon Tong Hong Kong'', ''San Po Kong Hong Kong'',
     ''Wong Tai Sin Hong Kong'', ''Diamond Hill Hong Kong'',
     ''Tsz Wan Shan Hong Kong'', ''Kowloon Bay Hong Kong'', ''Ngau Tau Kok Hong Kong'',
     ''Kwun Tong Hong Kong travel'', ''Lam Tin Hong Kong'', ''Yau Tong Hong Kong'',
     ''Lei Yue Mun Hong Kong'', ''Kwai Chung Hong Kong travel'',
     ''Tsing Yi Hong Kong'', ''Tsuen Wan Hong Kong travel'', ''Ma Wan Hong Kong'',
     ''Ting Kau Hong Kong'', ''Tuen Mun Hong Kong travel'', ''Lam Tei Hong Kong'',
     ''Yuen Long Hong Kong travel'', ''Tin Shui Wai Hong Kong'',
     ''Lok Ma Chau Hong Kong'', ''Kam Tin Hong Kong'', ''Fanling Hong Kong travel'',
     ''Sheung Shui Hong Kong'', ''Sha Tau Kok Hong Kong'', ''Tai Po Hong Kong travel'',
     ''Tai Mei Tuk Hong Kong'', ''Tai Wai Hong Kong'', ''Sha Tin Hong Kong travel'',
     ''Ma On Shan Hong Kong'', ''Wu Kai Sha Hong Kong'', ''Clear Water Bay Hong Kong'',
     ''Sai Kung Hong Kong travel'', ''Tseung Kwan O Hong Kong'',
     ''Hang Hau Hong Kong'', ''Cheung Chau Hong Kong travel'',
     ''Lamma Island Hong Kong vlog'', ''Lantau Island Hong Kong travel'',
     ''Tung Chung Hong Kong'', ''Hong Kong neighborhoods travel'',
     ''Hong Kong local guide vlog'', ''Hong Kong off the beaten path'',
     ''Hong Kong hidden gems travel'']"

text \<open>One line of the agent's output after \<open>json.loads\<close>: a blank line (skipped), a line that
  is not JSON (\<open>JSONDecodeError\<close>, skipped), a JSON value that is not an object (its \<open>.get\<close>
  raises, which ends the work on this search term), or an object with the fields the script
  reads. \<open>j_duration\<close> and \<open>j_view_count\<close> are \<open>None\<close> for a null; a missing \<open>id\<close>, \<open>title\<close>,
  \<open>uploader\<close> or \<open>upload_date\<close> reads as the empty string.\<close>

record video_info =
  j_id :: string
  j_title :: string
  j_duration :: "int option"
  j_uploader :: string
  j_upload_date :: string
  j_view_count :: "int option"

datatype json_line = BlankLine | Malformed | NotAnObject | Info video_info

text \<open>What \<open>subprocess.run\<close> gives for a search: the process ended (return code and output
  lines), the 180 second timeout fired, or another exception was raised.\<close>

datatype search_result = Completed int "json_line list" | TimeoutExpired | OtherException

text \<open>The search agent answers a command line; its answer may depend on how many searches
  were made before.\<close>

type_synonym search_agent = "nat \<Rightarrow> string list \<Rightarrow> search_result"

text \<open>\<open>datetime.strptime(upload_date, '%Y%m%d').strftime('%Y-%m-%d')\<close> is a library call, taken
  as a parameter: \<open>Some\<close> of the formatted date, or \<open>None\<close> when it raises.\<close>

type_synonym date_parser = "string \<Rightarrow> string option"

record search_state =
  all_videos :: "video list"
  seen_ids :: "string set"
  search_calls :: "string list list"

definition make_video :: "date_parser \<Rightarrow> video_info \<Rightarrow> video" where
  "make_video strptime video_info =
     (let video_id = j_id video_info;
          upload_date = j_upload_date video_info;
          upload_time =
            (if upload_date \<noteq> [] then
               (case strptime upload_date of Some formatted \<Rightarrow> formatted | None \<Rightarrow> [])
             else []);
          view_count = (case j_view_count video_info of None \<Rightarrow> 0 | Some n \<Rightarrow> n)
      in \<lparr> v_id = video_id, v_title = j_title video_info,
           v_url = ''https://www.youtube.com/watch?v='' @ video_id,
           v_duration = j_duration video_info, v_uploader = j_uploader video_info,
           v_upload_time = upload_time, v_views = view_count \<rparr>)"

fun lines_loop :: "date_parser \<Rightarrow> json_line list \<Rightarrow> search_state \<Rightarrow> search_state" where
  "lines_loop strptime [] st = st"
| "lines_loop strptime (BlankLine # rest) st = lines_loop strptime rest st"
| "lines_loop strptime (Malformed # rest) st = lines_loop strptime rest st"
| "lines_loop strptime (NotAnObject # rest) st = st"
| "lines_loop strptime (Info video_info # rest) st =
     (if j_id video_info \<in> seen_ids st then lines_loop strptime rest st
      else lines_loop strptime rest
             (st\<lparr>seen_ids := insert (j_id video_info) (seen_ids st),
                 all_videos := all_videos st @ [make_video strptime video_info]\<rparr>))"

definition search_cmd :: "string \<Rightarrow> string list" where
  "search_cmd term =
     [''yt-dlp'', ''--dump-json'', ''--no-download'', ''--flat-playlist'', ''ytsearch100:'' @ term]"

fun term_loop :: "search_agent \<Rightarrow> date_parser \<Rightarrow> int \<Rightarrow> string list \<Rightarrow> search_state \<Rightarrow> search_state" where
  "term_loop agent strptime max_results [] st = st"
| "term_loop agent strptime max_results (term # terms) st =
     (if int (length (all_videos st)) \<ge> max_results * 3 then st
      else
        (let cmd = search_cmd term;
             result = agent (length (search_calls st)) cmd;
             st1 = st\<lparr>search_calls := search_calls st @ [cmd]\<rparr>
         in case result of
              Completed returncode stdout \<Rightarrow>
                (if returncode \<noteq> 0 then term_loop agent strptime max_results terms st1
                 else term_loop agent strptime max_results terms (lines_loop strptime stdout st1))
            | TimeoutExpired \<Rightarrow> term_loop agent strptime max_results terms st1
            | OtherException \<Rightarrow> term_loop agent strptime max_results terms st1))"

definition search_init :: search_state where
  "search_init = \<lparr> all_videos = [], seen_ids = {}, search_calls = [] \<rparr>"

text \<open>\<open>xs[:n]\<close>: a negative \<open>n\<close> counts from the end of the list.\<close>

definition slice_to :: "int \<Rightarrow> 'a list \<Rightarrow> 'a list" where
  "slice_to n xs = (if 0 \<le> n then take (nat n) xs else take (nat (int (length xs) + n)) xs)"

text \<open>\<open>search_videos\<close>: the keyword is only printed; \<open>max_results\<close> defaults to
  \<open>self.max_downloads\<close>. \<open>list.sort\<close> is stable and compares the keys as strings.\<close>

definition search_videos ::
  "search_agent \<Rightarrow> date_parser \<Rightarrow> filter_config \<Rightarrow> string list \<Rightarrow> int \<Rightarrow> string \<Rightarrow> int option \<Rightarrow> video list" where
  "search_videos agent strptime cfg exclude_titles max_downloads keyword max_results_arg =
     (let max_results = (case max_results_arg of None \<Rightarrow> max_downloads | Some m \<Rightarrow> m);
          st = term_loop agent strptime max_results search_terms search_init;
          filtered_videos = filter_videos cfg exclude_titles (all_videos st);
          sorted_videos = sort_key v_upload_time filtered_videos;
          final_videos = slice_to max_results sorted_videos
      in final_videos)"

section \<open>youtube_excel_downloader.py\<close>

subsection \<open>Numbers as text\<close>

definition digit_char :: "nat \<Rightarrow> char" where
  "digit_char d = char_of (48 + d)"

text \<open>\<open>str(n)\<close> for a natural number and for an integer.\<close>

fun str_of_nat :: "nat \<Rightarrow> string" where
  "str_of_nat n = (if n < 10 then [digit_char n] else str_of_nat (n div 10) @ [digit_char (n mod 10)])"

declare str_of_nat.simps [simp del]

definition str_of_int :: "int \<Rightarrow> string" where
  "str_of_int i = (if i < 0 then CHR ''-'' # str_of_nat (nat (- i)) else str_of_nat (nat i))"

text \<open>\<open>f"{i:0wd}"\<close>: zero padded to \<open>w\<close> characters, the sign counted in the width.\<close>

definition format_0d :: "nat \<Rightarrow> int \<Rightarrow> string" where
  "format_0d w i =
     (if i < 0 then
        (let ds = str_of_nat (nat (- i)) in CHR ''-'' # replicate (w - 1 - length ds) CHR ''0'' @ ds)
      else (let ds = str_of_nat (nat i) in replicate (w - length ds) CHR ''0'' @ ds))"

text \<open>The value of a string of decimal digits.\<close>

definition nat_of_digits :: "string \<Rightarrow> nat" where
  "nat_of_digits ds = foldl (\<lambda>acc c. 10 * acc + (of_char c - 48)) 0 ds"

text \<open>\<open>int(s)\<close> for a string: white space around it is ignored, a sign may come first, and
  single underscores may separate the digits; anything else raises \<open>ValueError\<close> (\<open>None\<close>).\<close>

fun digits_body :: "bool \<Rightarrow> string \<Rightarrow> bool" where
  "digits_body after_digit [] = after_digit"
| "digits_body after_digit (c # cs) =
     (if isdigit_char c then digits_body True cs
      else if c = CHR ''_'' \<and> after_digit then digits_body False cs
      else False)"

definition int_of_string :: "string \<Rightarrow> int option" where
  "int_of_string s =
     (let t = strip s;
          negative = (t \<noteq> [] \<and> hd t = CHR ''-'');
          body = (if t \<noteq> [] \<and> (hd t = CHR ''-'' \<or> hd t = CHR ''+'') then tl t else t)
      in if digits_body False body then
           Some ((if negative then - 1 else 1) * int (nat_of_digits (filter isdigit_char body)))
         else None)"

subsection \<open>Configuration\<close>

definition OUTPUT_DIR :: string where
  "OUTPUT_DIR = ''/Volumes/T7 Shield/''
     @ [CHR 0xE7, CHR 0xBA, CHR 0xAA, CHR 0xE5, CHR 0xBD, CHR 0x95, CHR 0xE7, CHR 0x89, CHR 0x87]
     @ ''collection_1.9''"

definition SEGMENT_THRESHOLD_SECONDS :: int where
  "SEGMENT_THRESHOLD_SECONDS = 30 * 60"

definition SEGMENT_DURATION_SECONDS :: int where
  "SEGMENT_DURATION_SECONDS = 10 * 60"

definition VIDEO_QUALITY :: string where
  "VIDEO_QUALITY = ''best[height<=360]''"

definition get_url_platform :: "string \<Rightarrow> string" where
  "get_url_platform url =
     (let url_str = lower url in
      if str_in ''youtube.com'' url_str \<or> str_in ''youtu.be'' url_str then ''youtube''
      else if str_in ''bilibili.com'' url_str then ''bilibili''
      else if str_in ''rthk.hk'' url_str then ''rthk''
      else ''other'')"

subsection \<open>Parsing a duration\<close>











subsection \<open>The download agent and the world it acts on\<close>

text \<open>What \<open>subprocess.run\<close> gives: the process ended (return code, standard output, standard
  error), the timeout fired, or another exception was raised.\<close>

datatype run_result = Exited int string string | Timeout | Raised

text \<open>A unit of work as it is handed to \<open>download_video_segment\<close>.\<close>

record unit_of_work =
  u_name :: string
  u_start :: "int option"
  u_end :: "int option"
  u_platform :: string

text \<open>The status lines the script prints.\<close>

datatype message =
    MsgExists string
  | MsgDownloading string string
  | MsgDone string
  | MsgFailed string
  | MsgReason string
  | MsgTimeout string
  | MsgError string
  | MsgDuration int int
  | MsgNeedsSegments
  | MsgSegmentsDone nat int

text \<open>The world: the paths that exist in the file system, the command lines given to the
  external agent so far and the status lines printed so far. \<open>dispatched\<close> is a trace of the
  calls of \<open>download_video_segment\<close>; it is only written, never read, by the functions
  below.\<close>

record world =
  fs :: "string set"
  agent_calls :: "string list list"
  printed :: "message list"
  dispatched :: "unit_of_work list"

text \<open>The agent answers a command line in a file system and may change the file system.\<close>

type_synonym agent = "string list \<Rightarrow> string set \<Rightarrow> run_result \<times> string set"

definition print_msg :: "message \<Rightarrow> world \<Rightarrow> world" where
  "print_msg m w = w\<lparr>printed := printed w @ [m]\<rparr>"

definition subprocess_run :: "agent \<Rightarrow> string list \<Rightarrow> world \<Rightarrow> run_result \<times> world" where
  "subprocess_run agent cmd w =
     (case agent cmd (fs w) of
        (result, fs') \<Rightarrow> (result, w\<lparr>fs := fs', agent_calls := agent_calls w @ [cmd]\<rparr>))"

subsection \<open>Downloading one unit\<close>

definition build_cmd :: "string \<Rightarrow> string \<Rightarrow> int option \<Rightarrow> int option \<Rightarrow> string \<Rightarrow> string list" where
  "build_cmd url output_path start_time end_time platform =
     [''yt-dlp'']
     @ (if platform = ''youtube'' then [''--remote-components'', ''ejs:github''] else [])
     @ (if platform = ''youtube'' \<or> platform = ''bilibili'' then [''-f'', VIDEO_QUALITY] else [])
     @ [''--no-playlist'', ''--no-check-certificate'', ''--merge-output-format'', ''mp4'',
        ''-o'', output_path]
     @ (if platform = ''youtube'' \<or> platform = ''bilibili'' then
          [''--write-subs'', ''--sub-lang'', ''en,zh-Hans,zh-Hant,zh'', ''--convert-subs'', ''vtt'']
        else [])
     @ (case start_time of
          None \<Rightarrow> []
        | Some s \<Rightarrow>
            (if platform = ''youtube'' then
               [''--download-sections'',
                (case end_time of
                   None \<Rightarrow> ''*'' @ str_of_int s @ ''-''
                 | Some e \<Rightarrow>
                     (if e \<noteq> 0 then ''*'' @ str_of_int s @ ''-'' @ str_of_int e
                      else ''*'' @ str_of_int s @ ''-''))]
             else []))
     @ [url]"

text \<open>The reason printed after a failure, from the agent's standard error.\<close>

definition failure_reason :: "string \<Rightarrow> string" where
  "failure_reason stderr =
     (let stderr_lower = lower stderr in
      if str_in ''private video'' stderr_lower \<or> str_in ''privat'' stderr_lower then ''private''
      else if str_in ''is not available'' stderr_lower then ''unavailable''
      else if str_in ''login required'' stderr_lower then ''login''
      else drop (length stderr - 200) stderr)"

definition download_video_segment ::
  "agent \<Rightarrow> string \<Rightarrow> string \<Rightarrow> string \<Rightarrow> int option \<Rightarrow> int option \<Rightarrow> string \<Rightarrow> world \<Rightarrow> bool \<times> world" where
  "download_video_segment agent url output_name output_dir start_time end_time platform w0 =
     (let w = w0\<lparr>dispatched := dispatched w0 @
                  [\<lparr>u_name = output_name, u_start = start_time, u_end = end_time,
                    u_platform = platform\<rparr>]\<rparr>;
          output_path = output_dir @ ''/'' @ output_name @ ''.mp4''
      in if output_path \<in> fs w then (True, print_msg (MsgExists output_name) w)
         else
           (let w1 = print_msg (MsgDownloading platform output_name) w;
                cmd = build_cmd url output_path start_time end_time platform
            in case subprocess_run agent cmd w1 of
                 (Exited returncode out err, w2) \<Rightarrow>
                   (if returncode = 0 then (True, print_msg (MsgDone output_name) w2)
                    else (False,
                          (if err \<noteq> [] then print_msg (MsgReason (failure_reason err)) else id)
                            (print_msg (MsgFailed output_name) w2)))
               | (Timeout, w2) \<Rightarrow> (False, print_msg (MsgTimeout output_name) w2)
               | (Raised, w2) \<Rightarrow> (False, print_msg (MsgError output_name) w2)))"

subsection \<open>Processing one video\<close>

text \<open>The duration probe: any failure, and any output that \<open>int\<close> does not read, leaves the
  duration at 0.\<close>

definition probe_duration :: "agent \<Rightarrow> string \<Rightarrow> world \<Rightarrow> int \<times> world" where
  "probe_duration agent url w =
     (let cmd = [''yt-dlp'', ''--print'', ''%(duration)s'', ''--no-download'', url] in
      case subprocess_run agent cmd w of
        (Exited returncode out err, w1) \<Rightarrow>
          (if returncode = 0 \<and> strip out \<noteq> [] then
             (case int_of_string (strip out) of Some n \<Rightarrow> (n, w1) | None \<Rightarrow> (0, w1))
           else (0, w1))
      | (Timeout, w1) \<Rightarrow> (0, w1)
      | (Raised, w1) \<Rightarrow> (0, w1))"

text \<open>The loop over \<open>range(num_segments)\<close>, with the counter \<open>success_count\<close>.\<close>

fun segment_loop ::
  "agent \<Rightarrow> string \<Rightarrow> string \<Rightarrow> string \<Rightarrow> string \<Rightarrow> int \<Rightarrow> int list \<Rightarrow> nat \<Rightarrow> world \<Rightarrow> nat \<times> world" where
  "segment_loop agent url video_id_str output_dir platform duration_seconds [] success_count w =
     (success_count, w)"
| "segment_loop agent url video_id_str output_dir platform duration_seconds (seg_idx # rest)
       success_count w =
     (let seg_start = seg_idx * SEGMENT_DURATION_SECONDS;
          seg_end = min ((seg_idx + 1) * SEGMENT_DURATION_SECONDS) duration_seconds;
          seg_name = video_id_str @ ''_'' @ format_0d 2 (seg_idx + 1)
      in case download_video_segment agent url seg_name output_dir (Some seg_start) (Some seg_end)
                platform w of
           (ok, w') \<Rightarrow>
             segment_loop agent url video_id_str output_dir platform duration_seconds rest
               (if ok then success_count + 1 else success_count) w')"

text \<open>\<open>range(n)\<close> for an integer \<open>n\<close>.\<close>

definition range :: "int \<Rightarrow> int list" where
  "range n = map int [0 ..< nat n]"

definition process_video :: "agent \<Rightarrow> int \<Rightarrow> string \<Rightarrow> string \<Rightarrow> string \<Rightarrow> world \<Rightarrow> bool \<times> world" where
  "process_video agent video_no title url output_dir w =
     (let video_id_str = format_0d 3 video_no;
          platform = get_url_platform url;
          (duration_seconds, w1) =
            (if platform = ''youtube'' \<or> platform = ''bilibili'' then
               (case probe_duration agent url w of
                  (d, w') \<Rightarrow> (d, print_msg (MsgDuration (d div 60) (d mod 60)) w'))
             else (0, w))
      in if platform = ''youtube'' \<and> duration_seconds > SEGMENT_THRESHOLD_SECONDS then
           (let w2 = print_msg MsgNeedsSegments w1;
                num_segments =
                  (duration_seconds + SEGMENT_DURATION_SECONDS - 1) div SEGMENT_DURATION_SECONDS
            in case segment_loop agent url video_id_str output_dir platform duration_seconds
                      (range num_segments) 0 w2 of
                 (success_count, w3) \<Rightarrow>
                   (success_count > 0, print_msg (MsgSegmentsDone success_count num_segments) w3))
         else download_video_segment agent url video_id_str output_dir None None platform w1)"

subsection \<open>The main loop\<close>

record excel_video =
  e_no :: int
  e_title :: string
  e_url :: string
  e_platform :: string

record main_counts =
  success_count :: nat
  fail_count :: nat
  skip_count :: nat

fun main_loop :: "agent \<Rightarrow> excel_video list \<Rightarrow> main_counts \<Rightarrow> world \<Rightarrow> main_counts \<times> world" where
  "main_loop agent [] counts w = (counts, w)"
| "main_loop agent (video # videos) counts w =
     (let video_id_str = format_0d 3 (e_no video);
          output_path = OUTPUT_DIR @ ''/'' @ video_id_str @ ''.mp4''
      in if output_path \<in> fs w then
           main_loop agent videos (counts\<lparr>skip_count := skip_count counts + 1\<rparr>)
             (print_msg (MsgExists video_id_str) w)
         else
           (case process_video agent (e_no video) (e_title video) (e_url video) OUTPUT_DIR w of
              (ok, w') \<Rightarrow>
                (if ok then main_loop agent videos (counts\<lparr>success_count := success_count counts + 1\<rparr>) w'
                 else main_loop agent videos (counts\<lparr>fail_count := fail_count counts + 1\<rparr>) w')))"

section \<open>vtt_to_txt.py\<close>












section \<open>The specification's reading of the filter pipeline\<close>



section \<open>Reading the printed status lines\<close>

text \<open>A unit ended well when the script printed that its file exists or that its download is
  done; it failed when the script printed a failure, a timeout or an error for it.\<close>

fun is_success_msg :: "message \<Rightarrow> bool" where
  "is_success_msg (MsgExists name) = True"
| "is_success_msg (MsgDone name) = True"
| "is_success_msg m = False"

fun is_failure_msg :: "message \<Rightarrow> bool" where
  "is_failure_msg (MsgFailed name) = True"
| "is_failure_msg (MsgTimeout name) = True"
| "is_failure_msg (MsgError name) = True"
| "is_failure_msg m = False"

section \<open>Properties\<close>

subsection \<open>String operations\<close>

lemma str_in_iff_sublist: "str_in sub s \<longleftrightarrow> sublist sub s"
proof (induction s)
  case Nil
  show ?case by simp
next
  case (Cons c cs)
  show ?case
  proof (cases sub)
    case Nil
    then show ?thesis by simp
  next
    case (Cons a as)
    with Cons.IH show ?thesis by (simp add: sublist_Cons_right)
  qed
qed

lemma str_in_iff: "str_in sub s \<longleftrightarrow> (\<exists>before after. s = before @ sub @ after)"
  by (simp add: str_in_iff_sublist sublist_def)


subsection \<open>Keyword filter\<close>





subsection \<open>Duplicate detector\<close>




subsection \<open>Filter pipeline\<close>












subsection \<open>Downloading and segmenting\<close>

lemma download_dispatched:
  "dispatched (snd (download_video_segment agent url name dir st en platform w))
     = dispatched w @ [\<lparr>u_name = name, u_start = st, u_end = en, u_platform = platform\<rparr>]"
  by (simp add: download_video_segment_def Let_def print_msg_def subprocess_run_def
        split: prod.splits run_result.splits)

lemma download_exists:
  "dir @ ''/'' @ name @ ''.mp4'' \<in> fs w \<Longrightarrow>
   download_video_segment agent url name dir st en platform w
     = (True, w\<lparr>printed := printed w @ [MsgExists name],
                dispatched := dispatched w @
                  [\<lparr>u_name = name, u_start = st, u_end = en, u_platform = platform\<rparr>]\<rparr>)"
  by (simp add: download_video_segment_def Let_def print_msg_def)

lemma download_printed:
  "\<exists>ms. printed (snd (download_video_segment agent url name dir st en platform w)) = printed w @ ms
     \<and> length (filter is_success_msg ms)
         = (if fst (download_video_segment agent url name dir st en platform w) then 1 else 0)
     \<and> length (filter is_failure_msg ms)
         = (if fst (download_video_segment agent url name dir st en platform w) then 0 else 1)"
  by (simp add: download_video_segment_def Let_def print_msg_def subprocess_run_def
        split: prod.splits run_result.splits)

lemma segment_loop_dispatched:
  "dispatched (snd (segment_loop agent url vid dir platform d idxs k w))
     = dispatched w @ map (\<lambda>seg_idx.
         \<lparr>u_name = vid @ ''_'' @ format_0d 2 (seg_idx + 1),
          u_start = Some (seg_idx * SEGMENT_DURATION_SECONDS),
          u_end = Some (min ((seg_idx + 1) * SEGMENT_DURATION_SECONDS) d),
          u_platform = platform\<rparr>) idxs"
proof (induction idxs arbitrary: k w)
  case Nil
  show ?case by simp
next
  case (Cons i idxs)
  obtain ok w' where dl: "download_video_segment agent url (vid @ ''_'' @ format_0d 2 (i + 1)) dir
      (Some (i * SEGMENT_DURATION_SECONDS)) (Some (min ((i + 1) * SEGMENT_DURATION_SECONDS) d))
      platform w = (ok, w')"
    by (cases "download_video_segment agent url (vid @ ''_'' @ format_0d 2 (i + 1)) dir
      (Some (i * SEGMENT_DURATION_SECONDS)) (Some (min ((i + 1) * SEGMENT_DURATION_SECONDS) d))
      platform w")
  have "dispatched w' = dispatched w @ [\<lparr>u_name = vid @ ''_'' @ format_0d 2 (i + 1),
          u_start = Some (i * SEGMENT_DURATION_SECONDS),
          u_end = Some (min ((i + 1) * SEGMENT_DURATION_SECONDS) d),
          u_platform = platform\<rparr>]"
    using download_dispatched [of agent url "vid @ ''_'' @ format_0d 2 (i + 1)" dir
      "Some (i * SEGMENT_DURATION_SECONDS)" "Some (min ((i + 1) * SEGMENT_DURATION_SECONDS) d)"
      platform w] dl by simp
  then show ?case using dl by (simp add: Let_def Cons.IH)
qed

lemma segment_loop_printed:
  "\<exists>ms. printed (snd (segment_loop agent url vid dir platform d idxs k w)) = printed w @ ms
     \<and> fst (segment_loop agent url vid dir platform d idxs k w) = k + length (filter is_success_msg ms)
     \<and> length (filter is_success_msg ms) + length (filter is_failure_msg ms) = length idxs"
proof (induction idxs arbitrary: k w)
  case Nil
  show ?case by simp
next
  case (Cons i idxs)
  let ?dl = "download_video_segment agent url (vid @ ''_'' @ format_0d 2 (i + 1)) dir
      (Some (i * SEGMENT_DURATION_SECONDS)) (Some (min ((i + 1) * SEGMENT_DURATION_SECONDS) d))
      platform w"
  obtain ok w' where dl: "?dl = (ok, w')" by (cases ?dl)
  from download_printed [of agent url "vid @ ''_'' @ format_0d 2 (i + 1)" dir
      "Some (i * SEGMENT_DURATION_SECONDS)" "Some (min ((i + 1) * SEGMENT_DURATION_SECONDS) d)"
      platform w] dl
  obtain ms1 where ms1: "printed w' = printed w @ ms1"
    "length (filter is_success_msg ms1) = (if ok then 1 else 0)"
    "length (filter is_failure_msg ms1) = (if ok then 0 else 1)" by auto
  from Cons.IH [of "if ok then k + 1 else k" w']
  obtain ms2 where ms2:
    "printed (snd (segment_loop agent url vid dir platform d idxs (if ok then k + 1 else k) w'))
       = printed w' @ ms2"
    "fst (segment_loop agent url vid dir platform d idxs (if ok then k + 1 else k) w')
       = (if ok then k + 1 else k) + length (filter is_success_msg ms2)"
    "length (filter is_success_msg ms2) + length (filter is_failure_msg ms2) = length idxs"
    by blast
  show ?case
    apply (rule exI [of _ "ms1 @ ms2"])
    using dl ms1 ms2 by (simp add: Let_def)
qed


lemma probe_frame:
  "dispatched (snd (probe_duration agent url w)) = dispatched w
   \<and> printed (snd (probe_duration agent url w)) = printed w"
  by (simp add: probe_duration_def Let_def subprocess_run_def
        split: prod.splits run_result.splits option.splits)

lemma div_mod_600:
  fixes t :: int
  shows "t = 600 * (t div 600) + t mod 600" "0 \<le> t mod 600" "t mod 600 < 600"
  by simp_all

lemma quotient_bounds:
  fixes d q r :: int
  assumes "d + 600 - 1 = 600 * q + r" "0 \<le> r" "r < 600"
  shows "600 * (q - 1) < d" "d \<le> 600 * q"
  using assms by auto

lemma num_segments_bounds:
  fixes d :: int
  shows "600 * ((d + 600 - 1) div 600 - 1) < d" "d \<le> 600 * ((d + 600 - 1) div 600)"
  by (rule quotient_bounds [OF div_mod_600 [of "d + 600 - 1"]])+

lemma floor_bounds:
  fixes t q r :: int
  assumes "t = 600 * q + r" "0 \<le> r" "r < 600"
  shows "q * 600 \<le> t" "t < (q + 1) * 600"
  using assms by auto

lemma num_segments_ceiling:
  "(d + SEGMENT_DURATION_SECONDS - 1) div SEGMENT_DURATION_SECONDS
     = \<lceil>real_of_int d / real_of_int SEGMENT_DURATION_SECONDS\<rceil>"
proof -
  let ?q = "(d + 600 - 1) div 600"
  have "real_of_int (600 * (?q - 1)) < real_of_int d" "real_of_int d \<le> real_of_int (600 * ?q)"
    using num_segments_bounds [of d] by (simp_all only: of_int_less_iff of_int_le_iff)
  then have "of_int ?q - 1 < real_of_int d / 600" "real_of_int d / 600 \<le> of_int ?q"
    by simp_all
  then have "\<lceil>real_of_int d / 600\<rceil> = ?q" by (rule ceiling_unique)
  then show ?thesis by (simp add: SEGMENT_DURATION_SECONDS_def)
qed

lemma segment_cover:
  fixes d t :: int
  assumes "0 \<le> t" "t < d"
  shows "\<exists>!i::nat. i < nat ((d + 600 - 1) div 600) \<and> int i * 600 \<le> t \<and> t < min ((int i + 1) * 600) d"
proof (rule ex1I [of _ "nat (t div 600)"])
  have k: "0 \<le> t div 600" using assms(1) div_mod_600 [of t] by linarith
  have "t div 600 < (d + 600 - 1) div 600"
    using assms div_mod_600 [of t] num_segments_bounds [of d] by linarith
  moreover have "(t div 600) * 600 \<le> t" "t < (t div 600 + 1) * 600"
    by (rule floor_bounds [OF div_mod_600 [of t]])+
  ultimately show "nat (t div 600) < nat ((d + 600 - 1) div 600) \<and> int (nat (t div 600)) * 600 \<le> t
      \<and> t < min ((int (nat (t div 600)) + 1) * 600) d"
    using k assms by simp
next
  fix i :: nat
  assume "i < nat ((d + 600 - 1) div 600) \<and> int i * 600 \<le> t \<and> t < min ((int i + 1) * 600) d"
  then have "int i * 600 \<le> t" "t < (int i + 1) * 600" by simp_all
  then have "t div 600 = int i"
    by (intro int_div_pos_eq [of t 600 "int i" "t - 600 * int i"]) simp_all
  then show "i = nat (t div 600)" by simp
qed

lemma segment_nonempty:
  fixes d :: int and i :: nat
  assumes "i < nat ((d + 600 - 1) div 600)"
  shows "int i * 600 < min ((int i + 1) * 600) d"
proof -
  have "int i + 1 \<le> (d + 600 - 1) div 600" using assms by linarith
  then show ?thesis using num_segments_bounds [of d] by (simp add: min_def)
qed

lemma segment_contiguous:
  fixes d :: int and i :: nat
  assumes "Suc i < nat ((d + 600 - 1) div 600)"
  shows "min ((int i + 1) * 600) d = int (Suc i) * 600"
proof -
  have "int i + 2 \<le> (d + 600 - 1) div 600" using assms by linarith
  then have "(int i + 1) * 600 \<le> d" using num_segments_bounds [of d] by (simp add: algebra_simps)
  then show ?thesis by simp
qed

lemma segment_last:
  fixes d :: int
  assumes "0 < d"
  shows "min (int (nat ((d + 600 - 1) div 600)) * 600) d = d"
proof -
  have "0 \<le> (d + 600 - 1) div 600" using assms num_segments_bounds [of d] by linarith
  then show ?thesis using num_segments_bounds [of d] by simp
qed

text \<open>The duration \<open>process_video\<close> works with, and its two branches.\<close>

lemma process_video_segmented:
  assumes "get_url_platform url = ''youtube''"
    and "fst (probe_duration agent url w) > SEGMENT_THRESHOLD_SECONDS"
  shows "process_video agent video_no title url output_dir w =
    (let d = fst (probe_duration agent url w);
         w2 = print_msg MsgNeedsSegments
                (print_msg (MsgDuration (d div 60) (d mod 60)) (snd (probe_duration agent url w)));
         n = (d + SEGMENT_DURATION_SECONDS - 1) div SEGMENT_DURATION_SECONDS;
         r = segment_loop agent url (format_0d 3 video_no) output_dir ''youtube'' d (range n) 0 w2
     in (fst r > 0, print_msg (MsgSegmentsDone (fst r) n) (snd r)))"
  using assms by (simp add: process_video_def Let_def case_prod_unfold)

lemma process_video_single:
  assumes "\<not> (get_url_platform url = ''youtube''
      \<and> fst (probe_duration agent url w) > SEGMENT_THRESHOLD_SECONDS)"
  shows "process_video agent video_no title url output_dir w =
    (let platform = get_url_platform url;
         w1 = (if platform = ''youtube'' \<or> platform = ''bilibili'' then
                 (let d = fst (probe_duration agent url w)
                  in print_msg (MsgDuration (d div 60) (d mod 60)) (snd (probe_duration agent url w)))
               else w)
     in download_video_segment agent url (format_0d 3 video_no) output_dir None None platform w1)"
  using assms
  by (auto simp add: process_video_def Let_def case_prod_unfold SEGMENT_THRESHOLD_SECONDS_def)


lemma numeral_eq: "(10 * 60 :: int) = 600"
  by simp

lemma print_msg_dispatched: "dispatched (print_msg m w) = dispatched w"
  by (simp add: print_msg_def)

lemma range_ceiling:
  "range ((d + SEGMENT_DURATION_SECONDS - 1) div SEGMENT_DURATION_SECONDS)
     = map int [0 ..< nat \<lceil>real_of_int d / real_of_int SEGMENT_DURATION_SECONDS\<rceil>]"
  by (simp only: range_def num_segments_ceiling)

text \<open>
  Claim C2. \<open>process_video\<close> works with the duration \<open>d\<close> that the probe gives (0 on a
  platform that is not probed). On YouTube, the platform that supports fetching a time range,
  with \<open>d\<close> above the threshold of 1800 seconds, it hands exactly \<open>\<lceil>d / 600\<rceil>\<close> units to
  \<open>download_video_segment\<close>, in order, unit \<open>i\<close> (from 0) running from \<open>i * 600\<close> to
  \<open>min ((i + 1) * 600) d\<close>: every second of \<open>[0, d)\<close> lies in exactly one unit, each
  unit ends where the next starts, no unit is empty and the last one ends at \<open>d\<close>. In
  every other case it hands over exactly one unit without bounds, the whole video.
\<close>

theorem segmentation_plan:
  fixes agent :: agent and video_no :: int and title url output_dir :: string and w :: world
  defines "platform \<equiv> get_url_platform url"
    and "d \<equiv> (if get_url_platform url = ''youtube'' \<or> get_url_platform url = ''bilibili''
               then fst (probe_duration agent url w) else 0)"
    and "units \<equiv> dispatched (snd (process_video agent video_no title url output_dir w))"
  defines "n \<equiv> nat \<lceil>real_of_int d / real_of_int SEGMENT_DURATION_SECONDS\<rceil>"
  shows "SEGMENT_THRESHOLD_SECONDS = 1800 \<and> SEGMENT_DURATION_SECONDS = 600
    \<and> (platform = ''youtube'' \<and> d > SEGMENT_THRESHOLD_SECONDS \<longrightarrow>
         units = dispatched w @ map (\<lambda>i.
             \<lparr>u_name = format_0d 3 video_no @ ''_'' @ format_0d 2 (int i + 1),
              u_start = Some (int i * SEGMENT_DURATION_SECONDS),
              u_end = Some (min ((int i + 1) * SEGMENT_DURATION_SECONDS) d),
              u_platform = ''youtube''\<rparr>) [0 ..< n]
         \<and> (\<forall>t. 0 \<le> t \<and> t < d \<longrightarrow>
               (\<exists>!i. i < n \<and> int i * SEGMENT_DURATION_SECONDS \<le> t
                      \<and> t < min ((int i + 1) * SEGMENT_DURATION_SECONDS) d))
         \<and> (\<forall>i. Suc i < n \<longrightarrow>
               min ((int i + 1) * SEGMENT_DURATION_SECONDS) d = int (Suc i) * SEGMENT_DURATION_SECONDS)
         \<and> (\<forall>i. i < n \<longrightarrow>
               int i * SEGMENT_DURATION_SECONDS < min ((int i + 1) * SEGMENT_DURATION_SECONDS) d)
         \<and> min (int n * SEGMENT_DURATION_SECONDS) d = d)
    \<and> (\<not> (platform = ''youtube'' \<and> d > SEGMENT_THRESHOLD_SECONDS) \<longrightarrow>
         units = dispatched w @
           [\<lparr>u_name = format_0d 3 video_no, u_start = None, u_end = None, u_platform = platform\<rparr>])"
proof (intro conjI impI)
  show "SEGMENT_THRESHOLD_SECONDS = 1800" by (simp add: SEGMENT_THRESHOLD_SECONDS_def)
  show "SEGMENT_DURATION_SECONDS = 600" by (simp add: SEGMENT_DURATION_SECONDS_def)
next
  assume seg: "platform = ''youtube'' \<and> d > SEGMENT_THRESHOLD_SECONDS"
  then have yt: "get_url_platform url = ''youtube''" and d: "d = fst (probe_duration agent url w)"
    by (simp_all add: platform_def d_def)
  with seg have long: "fst (probe_duration agent url w) > SEGMENT_THRESHOLD_SECONDS" by simp
  have n: "n = nat ((d + 600 - 1) div 600)"
    unfolding n_def using num_segments_ceiling [of d] by (simp add: SEGMENT_DURATION_SECONDS_def)
  have pos: "0 < d" using seg by (simp add: SEGMENT_THRESHOLD_SECONDS_def)
  show "units = dispatched w @ map (\<lambda>i.
             \<lparr>u_name = format_0d 3 video_no @ ''_'' @ format_0d 2 (int i + 1),
              u_start = Some (int i * SEGMENT_DURATION_SECONDS),
              u_end = Some (min ((int i + 1) * SEGMENT_DURATION_SECONDS) d),
              u_platform = ''youtube''\<rparr>) [0 ..< n]"
    unfolding units_def process_video_segmented [OF yt long] n_def d
    by (simp add: Let_def print_msg_dispatched segment_loop_dispatched probe_frame
          range_ceiling comp_def)
  show "\<forall>t. 0 \<le> t \<and> t < d \<longrightarrow>
               (\<exists>!i. i < n \<and> int i * SEGMENT_DURATION_SECONDS \<le> t
                      \<and> t < min ((int i + 1) * SEGMENT_DURATION_SECONDS) d)"
  proof (intro allI impI)
    fix t :: int
    assume "0 \<le> t \<and> t < d"
    then have "0 \<le> t" "t < d" by simp_all
    then have "\<exists>!i. i < nat ((d + 600 - 1) div 600) \<and> int i * 600 \<le> t
        \<and> t < min ((int i + 1) * 600) d"
      by (rule segment_cover)
    then show "\<exists>!i. i < n \<and> int i * SEGMENT_DURATION_SECONDS \<le> t
                      \<and> t < min ((int i + 1) * SEGMENT_DURATION_SECONDS) d"
      by (simp only: n SEGMENT_DURATION_SECONDS_def numeral_eq)
  qed
  show "\<forall>i. Suc i < n \<longrightarrow>
               min ((int i + 1) * SEGMENT_DURATION_SECONDS) d = int (Suc i) * SEGMENT_DURATION_SECONDS"
  proof (intro allI impI)
    fix i :: nat
    assume "Suc i < n"
    then have "Suc i < nat ((d + 600 - 1) div 600)" by (simp only: n)
    then have "min ((int i + 1) * 600) d = int (Suc i) * 600"
      by (rule segment_contiguous)
    then show "min ((int i + 1) * SEGMENT_DURATION_SECONDS) d = int (Suc i) * SEGMENT_DURATION_SECONDS"
      by (simp only: SEGMENT_DURATION_SECONDS_def numeral_eq)
  qed
  show "\<forall>i. i < n \<longrightarrow>
               int i * SEGMENT_DURATION_SECONDS < min ((int i + 1) * SEGMENT_DURATION_SECONDS) d"
  proof (intro allI impI)
    fix i :: nat
    assume "i < n"
    then have "i < nat ((d + 600 - 1) div 600)" by (simp only: n)
    then have "int i * 600 < min ((int i + 1) * 600) d"
      by (rule segment_nonempty)
    then show "int i * SEGMENT_DURATION_SECONDS < min ((int i + 1) * SEGMENT_DURATION_SECONDS) d"
      by (simp only: SEGMENT_DURATION_SECONDS_def numeral_eq)
  qed
  have "min (int (nat ((d + 600 - 1) div 600)) * 600) d = d"
    by (rule segment_last [OF pos])
  then show "min (int n * SEGMENT_DURATION_SECONDS) d = d"
    by (simp only: n SEGMENT_DURATION_SECONDS_def numeral_eq)
next
  assume "\<not> (platform = ''youtube'' \<and> d > SEGMENT_THRESHOLD_SECONDS)"
  then have single: "\<not> (get_url_platform url = ''youtube''
      \<and> fst (probe_duration agent url w) > SEGMENT_THRESHOLD_SECONDS)"
    by (auto simp add: platform_def d_def)
  show "units = dispatched w @
           [\<lparr>u_name = format_0d 3 video_no, u_start = None, u_end = None, u_platform = platform\<rparr>]"
    unfolding units_def process_video_single [OF single] platform_def
    by (simp add: Let_def download_dispatched print_msg_dispatched probe_frame)
qed


theorem segmentation_plan_witness:
  "dispatched (snd (process_video
      (\<lambda>cmd files. (if cmd ! 1 = ''--print'' then Exited 0 ''2150'' [] else Exited 0 [] [], files))
      7 ''T'' ''https://youtu.be/x'' ''/o''
      \<lparr>fs = {}, agent_calls = [], printed = [], dispatched = []\<rparr>))
   = [\<lparr>u_name = ''007_01'', u_start = Some 0, u_end = Some 600, u_platform = ''youtube''\<rparr>,
      \<lparr>u_name = ''007_02'', u_start = Some 600, u_end = Some 1200, u_platform = ''youtube''\<rparr>,
      \<lparr>u_name = ''007_03'', u_start = Some 1200, u_end = Some 1800, u_platform = ''youtube''\<rparr>,
      \<lparr>u_name = ''007_04'', u_start = Some 1800, u_end = Some 2150, u_platform = ''youtube''\<rparr>]"
proof -
  let ?ag = "(\<lambda>cmd files. (if cmd ! 1 = ''--print'' then Exited 0 ''2150'' [] else Exited 0 [] [], files)) :: agent"
  let ?url = "''https://youtu.be/x''"
  let ?w = "\<lparr>fs = {}, agent_calls = [], printed = [], dispatched = []\<rparr>"
  let ?d = "if get_url_platform ?url = ''youtube'' \<or> get_url_platform ?url = ''bilibili''
               then fst (probe_duration ?ag ?url ?w) else 0"
  have d: "?d = 2150" by code_simp
  have hyp: "get_url_platform ?url = ''youtube'' \<and> ?d > SEGMENT_THRESHOLD_SECONDS"
    by code_simp
  have n: "nat \<lceil>real_of_int 2150 / real_of_int SEGMENT_DURATION_SECONDS\<rceil> = 4"
    by (simp add: SEGMENT_DURATION_SECONDS_def)
  have units: "dispatched ?w @ map (\<lambda>i.
             \<lparr>u_name = format_0d 3 7 @ ''_'' @ format_0d 2 (int i + 1),
              u_start = Some (int i * SEGMENT_DURATION_SECONDS),
              u_end = Some (min ((int i + 1) * SEGMENT_DURATION_SECONDS) 2150),
              u_platform = ''youtube''\<rparr>) [0 ..< 4]
     = [\<lparr>u_name = ''007_01'', u_start = Some 0, u_end = Some 600, u_platform = ''youtube''\<rparr>,
      \<lparr>u_name = ''007_02'', u_start = Some 600, u_end = Some 1200, u_platform = ''youtube''\<rparr>,
      \<lparr>u_name = ''007_03'', u_start = Some 1200, u_end = Some 1800, u_platform = ''youtube''\<rparr>,
      \<lparr>u_name = ''007_04'', u_start = Some 1800, u_end = Some 2150, u_platform = ''youtube''\<rparr>]"
    by code_simp
  from segmentation_plan [of ?url ?ag ?w 7 "''T''" "''/o''"] hyp
  have "dispatched (snd (process_video ?ag 7 ''T'' ?url ''/o'' ?w))
    = dispatched ?w @ map (\<lambda>i.
             \<lparr>u_name = format_0d 3 7 @ ''_'' @ format_0d 2 (int i + 1),
              u_start = Some (int i * SEGMENT_DURATION_SECONDS),
              u_end = Some (min ((int i + 1) * SEGMENT_DURATION_SECONDS) ?d),
              u_platform = ''youtube''\<rparr>)
          [0 ..< nat \<lceil>real_of_int ?d / real_of_int SEGMENT_DURATION_SECONDS\<rceil>]"
    by blast
  then show ?thesis unfolding d n units .
qed

text \<open>
  Claim C4. When the file of a unit already exists at its expected path,
  \<open>download_video_segment\<close> reports success by the status line that the file exists, and
  neither the file system nor the list of calls of the external agent changes; dispatching the
  same unit again gives the same outcome, again without a call. The main loop skips a video
  whose file exists in the same way, counting it as skipped and leaving the file system and
  the agent untouched.
\<close>

theorem skip_if_exists:
  "(output_dir @ ''/'' @ output_name @ ''.mp4'' \<in> fs w \<longrightarrow>
      (let r = download_video_segment agent url output_name output_dir start_time end_time platform w;
           r2 = download_video_segment agent url output_name output_dir start_time end_time platform
                  (snd r)
       in fst r \<and> fs (snd r) = fs w \<and> agent_calls (snd r) = agent_calls w
          \<and> printed (snd r) = printed w @ [MsgExists output_name]
          \<and> fst r2 \<and> fs (snd r2) = fs w \<and> agent_calls (snd r2) = agent_calls w
          \<and> printed (snd r2) = printed (snd r) @ [MsgExists output_name]))
   \<and> (OUTPUT_DIR @ ''/'' @ format_0d 3 (e_no video) @ ''.mp4'' \<in> fs w \<longrightarrow>
        main_loop agent [video] counts w
          = (counts\<lparr>skip_count := skip_count counts + 1\<rparr>,
             w\<lparr>printed := printed w @ [MsgExists (format_0d 3 (e_no video))]\<rparr>))"
proof (intro conjI impI)
  assume ex: "output_dir @ ''/'' @ output_name @ ''.mp4'' \<in> fs w"
  let ?w' = "w\<lparr>printed := printed w @ [MsgExists output_name],
                dispatched := dispatched w @
                  [\<lparr>u_name = output_name, u_start = start_time, u_end = end_time,
                    u_platform = platform\<rparr>]\<rparr>"
  have first: "download_video_segment agent url output_name output_dir start_time end_time platform w
      = (True, ?w')"
    using ex by (rule download_exists)
  have "output_dir @ ''/'' @ output_name @ ''.mp4'' \<in> fs ?w'" using ex by simp
  then have second: "download_video_segment agent url output_name output_dir start_time end_time
      platform ?w' = (True, ?w'\<lparr>printed := printed ?w' @ [MsgExists output_name],
                dispatched := dispatched ?w' @
                  [\<lparr>u_name = output_name, u_start = start_time, u_end = end_time,
                    u_platform = platform\<rparr>]\<rparr>)"
    by (rule download_exists)
  show "let r = download_video_segment agent url output_name output_dir start_time end_time platform w;
           r2 = download_video_segment agent url output_name output_dir start_time end_time platform
                  (snd r)
       in fst r \<and> fs (snd r) = fs w \<and> agent_calls (snd r) = agent_calls w
          \<and> printed (snd r) = printed w @ [MsgExists output_name]
          \<and> fst r2 \<and> fs (snd r2) = fs w \<and> agent_calls (snd r2) = agent_calls w
          \<and> printed (snd r2) = printed (snd r) @ [MsgExists output_name]"
    unfolding Let_def first snd_conv second by simp
next
  assume "OUTPUT_DIR @ ''/'' @ format_0d 3 (e_no video) @ ''.mp4'' \<in> fs w"
  then show "main_loop agent [video] counts w
          = (counts\<lparr>skip_count := skip_count counts + 1\<rparr>,
             w\<lparr>printed := printed w @ [MsgExists (format_0d 3 (e_no video))]\<rparr>)"
    by (simp add: Let_def print_msg_def)
qed

theorem skip_if_exists_witness:
  "fst (download_video_segment (\<lambda>cmd files. (Raised, files)) ''https://youtube.com/watch?v=abcdefghijk''
          ''005'' ''/out'' None None ''youtube''
          \<lparr>fs = {''/out/005.mp4''}, agent_calls = [], printed = [], dispatched = []\<rparr>)
   \<and> agent_calls (snd (download_video_segment (\<lambda>cmd files. (Raised, files))
          ''https://youtube.com/watch?v=abcdefghijk'' ''005'' ''/out'' None None ''youtube''
          \<lparr>fs = {''/out/005.mp4''}, agent_calls = [], printed = [], dispatched = []\<rparr>)) = []"
proof -
  let ?w = "\<lparr>fs = {''/out/005.mp4''}, agent_calls = [], printed = [], dispatched = []\<rparr>"
  have ex: "''/out'' @ ''/'' @ ''005'' @ ''.mp4'' \<in> fs ?w" by simp
  from skip_if_exists [of "''/out''" "''005''" ?w "\<lambda>cmd files. (Raised, files)"
      "''https://youtube.com/watch?v=abcdefghijk''" None None "''youtube''"] ex
  show ?thesis by (simp add: Let_def)
qed

text \<open>
  Claim C7. For a video that is downloaded in segments, \<open>process_video\<close> reports success
  exactly when at least one segment ended well (its file existed or its download was done).
  The status lines of the segments show as many successes and failures together as there are
  segments, the last line reports the number of successes out of the number of segments, and
  with no successful segment the video is reported as failed.
\<close>

theorem segment_aggregation:
  fixes agent :: agent and video_no :: int and title url output_dir :: string and w :: world
  defines "d \<equiv> fst (probe_duration agent url w)"
    and "r \<equiv> process_video agent video_no title url output_dir w"
  defines "n \<equiv> \<lceil>real_of_int d / real_of_int SEGMENT_DURATION_SECONDS\<rceil>"
  shows "get_url_platform url = ''youtube'' \<and> d > SEGMENT_THRESHOLD_SECONDS \<longrightarrow>
     (\<exists>msgs. printed (snd r)
          = printed w @ [MsgDuration (d div 60) (d mod 60), MsgNeedsSegments] @ msgs
            @ [MsgSegmentsDone (length (filter is_success_msg msgs)) n]
        \<and> int (length (filter is_success_msg msgs) + length (filter is_failure_msg msgs)) = n
        \<and> fst r = (0 < length (filter is_success_msg msgs)))"
proof
  assume seg: "get_url_platform url = ''youtube'' \<and> d > SEGMENT_THRESHOLD_SECONDS"
  then have yt: "get_url_platform url = ''youtube''"
    and long: "fst (probe_duration agent url w) > SEGMENT_THRESHOLD_SECONDS"
    by (simp_all add: d_def)
  let ?w2 = "print_msg MsgNeedsSegments
                (print_msg (MsgDuration (d div 60) (d mod 60)) (snd (probe_duration agent url w)))"
  let ?n = "(d + SEGMENT_DURATION_SECONDS - 1) div SEGMENT_DURATION_SECONDS"
  let ?loop = "segment_loop agent url (format_0d 3 video_no) output_dir ''youtube'' d (range ?n) 0 ?w2"
  have r: "r = (fst ?loop > 0, print_msg (MsgSegmentsDone (fst ?loop) ?n) (snd ?loop))"
    unfolding r_def process_video_segmented [OF yt long] d_def by (simp add: Let_def)
  from segment_loop_printed [of agent url "format_0d 3 video_no" output_dir "''youtube''" d
      "range ?n" 0 ?w2]
  obtain msgs where msgs: "printed (snd ?loop) = printed ?w2 @ msgs"
    "fst ?loop = 0 + length (filter is_success_msg msgs)"
    "length (filter is_success_msg msgs) + length (filter is_failure_msg msgs) = length (range ?n)"
    by blast
  have w2: "printed ?w2 = printed w @ [MsgDuration (d div 60) (d mod 60), MsgNeedsSegments]"
    by (simp add: print_msg_def probe_frame)
  have pos: "0 \<le> ?n"
    using seg
    by (simp add: SEGMENT_THRESHOLD_SECONDS_def SEGMENT_DURATION_SECONDS_def
          pos_imp_zdiv_nonneg_iff)
  have len: "int (length (range ?n)) = n"
    unfolding n_def using pos by (simp add: range_def num_segments_ceiling)
  have nn: "?n = n" unfolding n_def by (rule num_segments_ceiling)
  show "\<exists>msgs. printed (snd r)
          = printed w @ [MsgDuration (d div 60) (d mod 60), MsgNeedsSegments] @ msgs
            @ [MsgSegmentsDone (length (filter is_success_msg msgs)) n]
        \<and> int (length (filter is_success_msg msgs) + length (filter is_failure_msg msgs)) = n
        \<and> fst r = (0 < length (filter is_success_msg msgs))"
    apply (rule exI [of _ msgs])
    using msgs w2 len nn by (simp add: r print_msg_def)
qed


theorem segment_aggregation_witness:
  "\<exists>msgs. printed (snd (process_video
        (\<lambda>cmd files. (if cmd ! 1 = ''--print'' then Exited 0 ''2150'' []
                       else if last (butlast cmd) = ''*600-1200'' then Exited 0 [] []
                       else Exited 1 [] ''HTTP Error 403'', files))
        7 ''T'' ''https://youtu.be/x'' ''/o''
        \<lparr>fs = {}, agent_calls = [], printed = [], dispatched = []\<rparr>))
      = printed \<lparr>fs = {}, agent_calls = [], printed = [], dispatched = []\<rparr>
        @ [MsgDuration 35 50, MsgNeedsSegments] @ msgs
        @ [MsgSegmentsDone (length (filter is_success_msg msgs)) 4]
    \<and> int (length (filter is_success_msg msgs) + length (filter is_failure_msg msgs)) = 4
    \<and> fst (process_video
        (\<lambda>cmd files. (if cmd ! 1 = ''--print'' then Exited 0 ''2150'' []
                       else if last (butlast cmd) = ''*600-1200'' then Exited 0 [] []
                       else Exited 1 [] ''HTTP Error 403'', files))
        7 ''T'' ''https://youtu.be/x'' ''/o''
        \<lparr>fs = {}, agent_calls = [], printed = [], dispatched = []\<rparr>)
      = (0 < length (filter is_success_msg msgs))"
proof -
  let ?ag = "(\<lambda>cmd files. (if cmd ! 1 = ''--print'' then Exited 0 ''2150'' []
                       else if last (butlast cmd) = ''*600-1200'' then Exited 0 [] []
                       else Exited 1 [] ''HTTP Error 403'', files)) :: agent"
  let ?url = "''https://youtu.be/x''"
  let ?w = "\<lparr>fs = {}, agent_calls = [], printed = [], dispatched = []\<rparr>"
  have d: "fst (probe_duration ?ag ?url ?w) = 2150" by code_simp
  have hyp: "get_url_platform ?url = ''youtube''
      \<and> fst (probe_duration ?ag ?url ?w) > SEGMENT_THRESHOLD_SECONDS"
    by code_simp
  have n: "\<lceil>real_of_int 2150 / real_of_int SEGMENT_DURATION_SECONDS\<rceil> = 4"
    by (simp add: SEGMENT_DURATION_SECONDS_def)
  have dm: "(2150 :: int) div 60 = 35" "(2150 :: int) mod 60 = 50" by simp_all
  from segment_aggregation [of ?url ?ag ?w 7 "''T''" "''/o''"] hyp
  have "\<exists>msgs. printed (snd (process_video ?ag 7 ''T'' ?url ''/o'' ?w))
          = printed ?w @ [MsgDuration (fst (probe_duration ?ag ?url ?w) div 60)
                            (fst (probe_duration ?ag ?url ?w) mod 60), MsgNeedsSegments] @ msgs
            @ [MsgSegmentsDone (length (filter is_success_msg msgs))
                 \<lceil>real_of_int (fst (probe_duration ?ag ?url ?w))
                    / real_of_int SEGMENT_DURATION_SECONDS\<rceil>]
        \<and> int (length (filter is_success_msg msgs) + length (filter is_failure_msg msgs))
            = \<lceil>real_of_int (fst (probe_duration ?ag ?url ?w))
                    / real_of_int SEGMENT_DURATION_SECONDS\<rceil>
        \<and> fst (process_video ?ag 7 ''T'' ?url ''/o'' ?w)
            = (0 < length (filter is_success_msg msgs))"
    by (rule mp)
  then show ?thesis unfolding d n dm .
qed

subsection \<open>Searching\<close>

lemma lines_loop_calls: "search_calls (lines_loop strptime ls st) = search_calls st"
  by (induction strptime ls st rule: lines_loop.induct) simp_all

lemma term_loop_reached:
  "max_results * 3 \<le> int (length (all_videos st)) \<Longrightarrow> term_loop agent strptime max_results terms st = st"
  by (cases terms) simp_all

lemma term_loop_step:
  "\<not> max_results * 3 \<le> int (length (all_videos st)) \<Longrightarrow>
   \<exists>st'. term_loop agent strptime max_results (t # terms) st
            = term_loop agent strptime max_results terms st'
        \<and> search_calls st' = search_calls st @ [search_cmd t]
        \<and> term_loop agent strptime max_results [t] st = st'"
  by (simp add: Let_def lines_loop_calls split: search_result.splits)

lemma term_loop_append:
  "term_loop agent strptime max_results (ts1 @ ts2) st
     = term_loop agent strptime max_results ts2 (term_loop agent strptime max_results ts1 st)"
proof (induction ts1 arbitrary: st)
  case Nil
  show ?case by simp
next
  case (Cons t ts1)
  show ?case
  proof (cases "max_results * 3 \<le> int (length (all_videos st))")
    case True
    then show ?thesis by (simp add: term_loop_reached)
  next
    case False
    from term_loop_step [OF False, of agent strptime t "ts1 @ ts2"]
      term_loop_step [OF False, of agent strptime t ts1]
    show ?thesis using Cons.IH by auto
  qed
qed

lemma term_loop_calls:
  "\<exists>k \<le> length terms.
     search_calls (term_loop agent strptime max_results terms st)
       = search_calls st @ map search_cmd (take k terms)"
proof (induction terms arbitrary: st)
  case Nil
  show ?case by simp
next
  case (Cons t terms)
  show ?case
  proof (cases "max_results * 3 \<le> int (length (all_videos st))")
    case True
    then show ?thesis by (intro exI [of _ 0]) simp
  next
    case False
    from term_loop_step [OF False, of agent strptime t terms]
    obtain st' where st': "term_loop agent strptime max_results (t # terms) st
            = term_loop agent strptime max_results terms st'"
        "search_calls st' = search_calls st @ [search_cmd t]" by blast
    from Cons.IH [of st'] obtain k where "k \<le> length terms"
      "search_calls (term_loop agent strptime max_results terms st')
       = search_calls st' @ map search_cmd (take k terms)" by blast
    then show ?thesis using st' by (intro exI [of _ "Suc k"]) simp
  qed
qed

text \<open>
  Claim C8. The search loop takes the search terms one at a time, in order, and gives the
  agent one call for each term it reaches, so the calls made are those of a prefix of the
  term list. Once the number of raw candidates has reached three times the requested count,
  the loop ends: whatever terms remain, the state (and with it the list of calls made) stays
  as it is.
\<close>

theorem search_early_exit:
  "(max_results * 3 \<le> int (length (all_videos (term_loop agent strptime max_results processed st))) \<longrightarrow>
      term_loop agent strptime max_results (processed @ rest) st
        = term_loop agent strptime max_results processed st)
   \<and> (\<exists>k \<le> length terms.
        search_calls (term_loop agent strptime max_results terms st)
          = search_calls st @ map search_cmd (take k terms))"
  using term_loop_calls [of terms agent strptime max_results st]
  by (simp add: term_loop_append term_loop_reached)


theorem search_early_exit_witness:
  "search_calls (term_loop
      (\<lambda>n cmd. Completed 0
         [Info \<lparr>j_id = ''a'', j_title = ''A'', j_duration = Some 300, j_uploader = ''U'',
                j_upload_date = [], j_view_count = None\<rparr>,
          Info \<lparr>j_id = ''b'', j_title = ''B'', j_duration = Some 300, j_uploader = ''U'',
                j_upload_date = [], j_view_count = None\<rparr>,
          Info \<lparr>j_id = ''c'', j_title = ''C'', j_duration = Some 300, j_uploader = ''U'',
                j_upload_date = [], j_view_count = None\<rparr>])
      (\<lambda>s. None) 1 ([''Hong Kong documentary''] @ [''Hong Kong vlog'']) search_init)
   = [search_cmd ''Hong Kong documentary'']"
proof -
  let ?ag = "(\<lambda>n cmd. Completed 0
         [Info \<lparr>j_id = ''a'', j_title = ''A'', j_duration = Some 300, j_uploader = ''U'',
                j_upload_date = [], j_view_count = None\<rparr>,
          Info \<lparr>j_id = ''b'', j_title = ''B'', j_duration = Some 300, j_uploader = ''U'',
                j_upload_date = [], j_view_count = None\<rparr>,
          Info \<lparr>j_id = ''c'', j_title = ''C'', j_duration = Some 300, j_uploader = ''U'',
                j_upload_date = [], j_view_count = None\<rparr>]) :: search_agent"
  let ?sp = "(\<lambda>s. None) :: date_parser"
  have reached: "1 * 3 \<le> int (length (all_videos
      (term_loop ?ag ?sp 1 [''Hong Kong documentary''] search_init)))"
    by code_simp
  have calls: "search_calls (term_loop ?ag ?sp 1 [''Hong Kong documentary''] search_init)
      = [search_cmd ''Hong Kong documentary'']"
    by code_simp
  from search_early_exit [of 1 ?ag ?sp "[''Hong Kong documentary'']" search_init
      "[''Hong Kong vlog'']"] reached
  have "term_loop ?ag ?sp 1 ([''Hong Kong documentary''] @ [''Hong Kong vlog'']) search_init
      = term_loop ?ag ?sp 1 [''Hong Kong documentary''] search_init"
    by blast
  then show ?thesis by (simp only: calls)
qed

subsection \<open>Ordering and truncation\<close>

lemma sorted_empty_first:
  fixes f :: "'a \<Rightarrow> string"
  shows "sorted (map f xs) \<Longrightarrow> [x \<leftarrow> xs. f x = []] @ [x \<leftarrow> xs. f x \<noteq> []] = xs"
proof (induction xs)
  case Nil
  show ?case by simp
next
  case (Cons x xs)
  then have le: "\<forall>y \<in> set xs. f x \<le> f y" and IH: "[x \<leftarrow> xs. f x = []] @ [x \<leftarrow> xs. f x \<noteq> []] = xs"
    by simp_all
  show ?case
  proof (cases "f x = []")
    case True
    then show ?thesis using IH by simp
  next
    case False
    have "\<forall>y \<in> set xs. f y \<noteq> []"
    proof
      fix y assume "y \<in> set xs"
      with le have "f x \<le> f y" by blast
      with False show "f y \<noteq> []" by auto
    qed
    then have "[x \<leftarrow> xs. f x = []] = []" by (simp add: filter_empty_conv)
    with IH False show ?thesis by simp
  qed
qed

lemma slice_to_sorted:
  "0 \<le> n \<or> xs = [] \<Longrightarrow> slice_to n xs = take (nat n) xs"
  by (auto simp: slice_to_def)

lemma filter_videos_Nil: "filter_videos cfg excl [] = []"
  by (simp add: filter_videos_def filter_statistics_def filter_init_def)

lemma term_loop_negative:
  "max_results < 0 \<Longrightarrow> all_videos (term_loop agent strptime max_results terms search_init) = []"
  by (simp add: term_loop_reached search_init_def)

lemma search_videos_eq:
  "search_videos agent strptime cfg excl max_downloads keyword arg =
     take (nat (case arg of None \<Rightarrow> max_downloads | Some m \<Rightarrow> m))
       (sort_key v_upload_time (filter_videos cfg excl (all_videos
          (term_loop agent strptime (case arg of None \<Rightarrow> max_downloads | Some m \<Rightarrow> m)
             search_terms search_init))))"
proof -
  let ?m = "case arg of None \<Rightarrow> max_downloads | Some m \<Rightarrow> m"
  let ?s = "sort_key v_upload_time (filter_videos cfg excl (all_videos
          (term_loop agent strptime ?m search_terms search_init)))"
  have "0 \<le> ?m \<or> ?s = []"
  proof (cases "0 \<le> ?m")
    case True
    then show ?thesis by simp
  next
    case False
    then have "?m < 0" by simp
    then have "all_videos (term_loop agent strptime ?m search_terms search_init) = []"
      by (rule term_loop_negative)
    then show ?thesis by (simp add: filter_videos_Nil)
  qed
  then have "slice_to ?m ?s = take (nat ?m) ?s" by (rule slice_to_sorted)
  then show ?thesis by (simp add: search_videos_def Let_def)
qed

lemma take_sorted_bound:
  fixes f :: "'a \<Rightarrow> string"
  assumes "sorted (map f xs)"
  shows "\<forall>a \<in> set (take n xs). \<forall>b \<in> set (drop n xs). f a \<le> f b"
proof -
  have "sorted (map f (take n xs) @ map f (drop n xs))"
    using assms by (simp flip: map_append)
  then show ?thesis by (auto simp: sorted_append)
qed

text \<open>
  Claim C6. \<open>search_videos\<close> returns the survivors of the filter sorted in ascending order
  of their upload time, compared as strings, and cut to the first \<open>max_results\<close> of them.
  Hence the result is sorted, the videos with the empty upload time (those whose upload date
  was missing or did not parse) come first, the result has \<open>max_results\<close> elements or all
  survivors if there are fewer, and every survivor that was cut off has an upload time that
  is at least that of every video kept.
\<close>

theorem ranker_ordering:
  fixes agent :: search_agent and strptime :: date_parser and cfg :: filter_config
    and exclude_titles :: "string list" and max_downloads :: int and keyword :: string
    and max_results_arg :: "int option"
  defines "max_results \<equiv> (case max_results_arg of None \<Rightarrow> max_downloads | Some m \<Rightarrow> m)"
  defines "survivors \<equiv> filter_videos cfg exclude_titles
      (all_videos (term_loop agent strptime max_results search_terms search_init))"
    and "out \<equiv> search_videos agent strptime cfg exclude_titles max_downloads keyword max_results_arg"
  shows "out = take (nat max_results) (sort_key v_upload_time survivors)
    \<and> sorted (map v_upload_time out)
    \<and> [v \<leftarrow> out. v_upload_time v = []] @ [v \<leftarrow> out. v_upload_time v \<noteq> []] = out
    \<and> length out = min (nat max_results) (length survivors)
    \<and> (\<exists>dropped. mset (out @ dropped) = mset survivors
          \<and> (\<forall>a \<in> set out. \<forall>b \<in> set dropped. v_upload_time a \<le> v_upload_time b))"
proof -
  let ?s = "sort_key v_upload_time survivors"
  have out: "out = take (nat max_results) ?s"
    unfolding out_def survivors_def max_results_def by (rule search_videos_eq)
  have s: "sorted (map v_upload_time ?s)" by simp
  then have so: "sorted (map v_upload_time out)"
    unfolding out by (simp only: take_map [symmetric] sorted_wrt_take)
  have "mset (take (nat max_results) ?s @ drop (nat max_results) ?s) = mset survivors"
    by (simp only: append_take_drop_id mset_sort)
  moreover have "\<forall>a \<in> set (take (nat max_results) ?s). \<forall>b \<in> set (drop (nat max_results) ?s).
      v_upload_time a \<le> v_upload_time b"
    using s by (rule take_sorted_bound)
  ultimately have "\<exists>dropped. mset (out @ dropped) = mset survivors
          \<and> (\<forall>a \<in> set out. \<forall>b \<in> set dropped. v_upload_time a \<le> v_upload_time b)"
    unfolding out by blast
  moreover have "length out = min (nat max_results) (length survivors)"
    unfolding out by (simp add: min.commute)
  moreover note out so sorted_empty_first [OF so]
  ultimately show ?thesis by blast
qed


theorem ranker_ordering_witness:
  "map v_upload_time (search_videos
      (\<lambda>n cmd. if n = 0 then Completed 0
         [Info \<lparr>j_id = ''a'', j_title = ''HK one'', j_duration = Some 300, j_uploader = ''U'',
                j_upload_date = ''unknown'', j_view_count = None\<rparr>,
          Info \<lparr>j_id = ''b'', j_title = ''HK two'', j_duration = Some 300, j_uploader = ''U'',
                j_upload_date = ''20210501'', j_view_count = None\<rparr>,
          Info \<lparr>j_id = ''c'', j_title = ''HK three'', j_duration = Some 300, j_uploader = ''U'',
                j_upload_date = ''20190202'', j_view_count = None\<rparr>]
        else TimeoutExpired)
      (\<lambda>s. if s = ''20210501'' then Some ''2021-05-01''
            else if s = ''20190202'' then Some ''2019-02-02'' else None)
      \<lparr>TITLE_MUST_CONTAIN = [''HK''], TITLE_EXCLUDE_KEYWORDS = [''Cage''],
       POLITICAL_KEYWORDS = [''riot''], MIN_DURATION_SECONDS = 240\<rparr>
      [] 50 ''Hong Kong documentary'' (Some 3))
   = [[], ''2019-02-02'', ''2021-05-01'']"
proof -
  let ?ag = "(\<lambda>n cmd. if n = 0 then Completed 0
         [Info \<lparr>j_id = ''a'', j_title = ''HK one'', j_duration = Some 300, j_uploader = ''U'',
                j_upload_date = ''unknown'', j_view_count = None\<rparr>,
          Info \<lparr>j_id = ''b'', j_title = ''HK two'', j_duration = Some 300, j_uploader = ''U'',
                j_upload_date = ''20210501'', j_view_count = None\<rparr>,
          Info \<lparr>j_id = ''c'', j_title = ''HK three'', j_duration = Some 300, j_uploader = ''U'',
                j_upload_date = ''20190202'', j_view_count = None\<rparr>]
        else TimeoutExpired) :: search_agent"
  let ?sp = "(\<lambda>s. if s = ''20210501'' then Some ''2021-05-01''
            else if s = ''20190202'' then Some ''2019-02-02'' else None) :: date_parser"
  let ?cfg = "\<lparr>TITLE_MUST_CONTAIN = [''HK''], TITLE_EXCLUDE_KEYWORDS = [''Cage''],
       POLITICAL_KEYWORDS = [''riot''], MIN_DURATION_SECONDS = 240\<rparr>"
  have sorted_list: "map v_upload_time (take (nat (case Some 3 of None \<Rightarrow> 50 | Some m \<Rightarrow> m))
      (sort_key v_upload_time (filter_videos ?cfg []
        (all_videos (term_loop ?ag ?sp (case Some 3 of None \<Rightarrow> 50 | Some m \<Rightarrow> m)
           search_terms search_init)))))
    = [[], ''2019-02-02'', ''2021-05-01'']"
    by code_simp
  have "search_videos ?ag ?sp ?cfg [] 50 ''Hong Kong documentary'' (Some 3)
    = take (nat (case Some 3 of None \<Rightarrow> 50 | Some m \<Rightarrow> m))
      (sort_key v_upload_time (filter_videos ?cfg []
        (all_videos (term_loop ?ag ?sp (case Some 3 of None \<Rightarrow> 50 | Some m \<Rightarrow> m)
           search_terms search_init))))"
    using ranker_ordering [where agent = ?ag and strptime = ?sp and cfg = ?cfg
        and exclude_titles = "[]" and max_downloads = 50
        and keyword = "''Hong Kong documentary''" and max_results_arg = "Some 3"]
    by (rule conjunct1)
  then show ?thesis by (simp only: sorted_list)
qed

subsection \<open>Subtitle text\<close>






subsection \<open>Parsing a duration\<close>










end
